theory Spec2Isabelle
  imports Main
begin

section \<open>The event emitter of \<open>CastManager.ts\<close>\<close>

text \<open>
  \<^verbatim>\<open>class EventEmitter { private listeners: Map<string, Set<Function>> = new Map(); ... }\<close>

  A listener is a function object; the \<open>Set\<close> compares listeners by reference, so a
  listener is modelled by its identity (a number). A JavaScript \<open>Set\<close> keeps its
  elements in insertion order: it is a list here, \<open>add\<close> appends an element that is
  not yet a member and \<open>delete\<close> removes the element. The \<open>Map\<close> from event names
  to sets is a partial function (its key order is never observed by the class).
\<close>

type_synonym listener = nat

record EventEmitter =
  listeners :: "string \<rightharpoonup> listener list"

definition set_add :: "listener list \<Rightarrow> listener \<Rightarrow> listener list" where
  "set_add xs l = (if l \<in> set xs then xs else xs @ [l])"

definition set_delete :: "listener list \<Rightarrow> listener \<Rightarrow> listener list" where
  "set_delete xs l = removeAll l xs"

text \<open>
  \<^verbatim>\<open>on(event, listener) { if (!this.listeners.has(event)) this.listeners.set(event, new Set());
                         this.listeners.get(event)!.add(listener); }\<close>
\<close>

definition on :: "string \<Rightarrow> listener \<Rightarrow> 'a EventEmitter_scheme \<Rightarrow> 'a EventEmitter_scheme" where
  "on event l em =
     (let m = (if listeners em event = None then (listeners em)(event \<mapsto> []) else listeners em)
      in case m event of
           None \<Rightarrow> em\<lparr>listeners := m\<rparr>
         | Some xs \<Rightarrow> em\<lparr>listeners := m(event \<mapsto> set_add xs l)\<rparr>)"

text \<open>
  \<^verbatim>\<open>off(event, listener) { const s = this.listeners.get(event); if (s) s.delete(listener); }\<close>
\<close>

definition off :: "string \<Rightarrow> listener \<Rightarrow> 'a EventEmitter_scheme \<Rightarrow> 'a EventEmitter_scheme" where
  "off event l em =
     (case listeners em event of
        None \<Rightarrow> em
      | Some xs \<Rightarrow> em\<lparr>listeners := (listeners em)(event \<mapsto> set_delete xs l)\<rparr>)"

text \<open>
  \<^verbatim>\<open>emit(event, data) { const s = this.listeners.get(event);
                      if (s) s.forEach((listener) => listener(data)); }\<close>

  What a listener does when it is called is not code of the class: it is the parameter
  \<open>body\<close>, which says for a listener and a payload whether the call returns
  (\<open>None\<close>) or throws (\<open>Some e\<close>). Listener bodies are taken not to call back
  into the emitter they are registered on (the two bindings of the repository, the hook
  and the service, register listeners that only store the payload).

  \<open>forEach\<close> has no \<open>try\<close>: the first exception leaves the loop and \<open>emit\<close>. The
  model returns the listeners that were called, in call order, and the exception that
  escaped, if any.
\<close>

fun forEach :: "(listener \<Rightarrow> 'd \<Rightarrow> 'x option) \<Rightarrow> listener list \<Rightarrow> 'd \<Rightarrow> listener list \<times> 'x option" where
  "forEach body [] d = ([], None)"
| "forEach body (l # ls) d =
     (case body l d of
        Some e \<Rightarrow> ([l], Some e)
      | None \<Rightarrow> (case forEach body ls d of (called, r) \<Rightarrow> (l # called, r)))"

definition emit :: "(listener \<Rightarrow> 'd \<Rightarrow> 'x option) \<Rightarrow> 'a EventEmitter_scheme \<Rightarrow> string \<Rightarrow> 'd
    \<Rightarrow> listener list \<times> 'x option" where
  "emit body em event d =
     (case listeners em event of
        None \<Rightarrow> ([], None)
      | Some xs \<Rightarrow> forEach body xs d)"

text \<open>
  \<^verbatim>\<open>removeAllListeners(event?) { if (event) this.listeners.delete(event); else this.listeners.clear(); }\<close>

  The test \<open>if (event)\<close> is a truthiness test: the empty string takes the \<open>else\<close>
  branch, like an omitted argument.
\<close>

definition removeAllListeners :: "string option \<Rightarrow> 'a EventEmitter_scheme \<Rightarrow> 'a EventEmitter_scheme" where
  "removeAllListeners event em =
     (case event of
        None \<Rightarrow> em\<lparr>listeners := Map.empty\<rparr>
      | Some e \<Rightarrow> (if e \<noteq> [] then em\<lparr>listeners := (listeners em)(e := None)\<rparr>
                  else em\<lparr>listeners := Map.empty\<rparr>))"

text \<open>
  A run of the emitter: a sequence of calls of its four methods. \<open>run\<close> returns the
  emitter after the calls and the invocations of listeners they caused, as triples of
  event name, listener and payload, in order. An exception that escapes one \<open>emit\<close>
  reaches the caller of that \<open>emit\<close>; later calls are made all the same.
\<close>

datatype 'd call = On string listener | Off string listener | Emit string 'd | RemoveAll "string option"

fun step :: "(listener \<Rightarrow> 'd \<Rightarrow> 'x option) \<Rightarrow> 'd call \<Rightarrow> 'a EventEmitter_scheme
    \<Rightarrow> 'a EventEmitter_scheme \<times> (string \<times> listener \<times> 'd) list" where
  "step body (On e l) em = (on e l em, [])"
| "step body (Off e l) em = (off e l em, [])"
| "step body (Emit e d) em = (em, map (\<lambda>l. (e, l, d)) (fst (emit body em e d)))"
| "step body (RemoveAll e) em = (removeAllListeners e em, [])"

fun run :: "(listener \<Rightarrow> 'd \<Rightarrow> 'x option) \<Rightarrow> 'd call list \<Rightarrow> 'a EventEmitter_scheme
    \<Rightarrow> 'a EventEmitter_scheme \<times> (string \<times> listener \<times> 'd) list" where
  "run body [] em = (em, [])"
| "run body (c # cs) em =
     (case step body c em of (em1, t1) \<Rightarrow>
        (case run body cs em1 of (em2, t2) \<Rightarrow> (em2, t1 @ t2)))"

section \<open>The browser and the Cast SDK, as the adapter sees them\<close>

text \<open>
  The enums of \<open>types.ts\<close>. The three members of \<open>CastEventType\<close> are strings (the
  keys of the emitter's map); the SDK's own \<open>CastContextEventType\<close> names the two
  native channels.
\<close>

datatype CastState = NO_DEVICES_AVAILABLE | NOT_CONNECTED | CONNECTING | CONNECTED

datatype SessionState =
  NO_SESSION | SESSION_STARTING | SESSION_STARTED | SESSION_START_FAILED
| SESSION_ENDING | SESSION_ENDED | SESSION_RESUMED

abbreviation CAST_STATE_CHANGED :: string where "CAST_STATE_CHANGED \<equiv> ''castStateChanged''"
abbreviation SESSION_STATE_CHANGED :: string where "SESSION_STATE_CHANGED \<equiv> ''sessionStateChanged''"
abbreviation MESSAGE_RECEIVED :: string where "MESSAGE_RECEIVED \<equiv> ''messageReceived''"

datatype CastContextEventType = Native_CAST_STATE_CHANGED | Native_SESSION_STATE_CHANGED

text \<open>
  Values of type \<open>any\<close> that travel as messages: structured data. A value is a string
  at run time (\<open>typeof message === "string"\<close>) exactly when it is a \<open>JStr\<close>.
\<close>

datatype json = JNull | JBool bool | JNum int | JStr string | JArr "json list" | JObj "(string \<times> json) list"

text \<open>
  A session handle is an object of the SDK (a \<open>CastSession\<close>), known by its identity;
  so is an adapter object (\<open>this\<close>). The context is the SDK's one \<open>CastContext\<close>.
\<close>

type_synonym CastSession = nat
type_synonym ref = nat
datatype CastContext = CastContextInstance

text \<open>The three event records of \<open>types.ts\<close>, as passed to listeners.\<close>

datatype payload =
  CastStateChangeEvent CastState
| SessionStateChangeEvent SessionState "CastSession option"
| MessageReceivedEvent string json

text \<open>
  Exceptions. The class throws plain \<open>Error\<close> objects told apart by their message;
  \<open>TypeError\<close> is what reading a property of \<open>null\<close> throws, \<open>SyntaxError\<close> what
  \<open>JSON.parse\<close> throws, \<open>SdkFailure\<close> a rejection that comes from the SDK.
\<close>

datatype js_error = Error string | TypeError | SyntaxError | SdkFailure nat

abbreviation NoSessionError :: js_error where
  "NoSessionError \<equiv> Error ''No Cast session available''"
abbreviation FrameworkTimeoutError :: js_error where
  "FrameworkTimeoutError \<equiv> Error ''Cast framework failed to initialize.''"
abbreviation ScriptLoadError :: js_error where
  "ScriptLoadError \<equiv> Error ''Failed to load Cast SDK''"
abbreviation ConfigRequiredError :: js_error where
  "ConfigRequiredError \<equiv> Error ''CastManager config required for first initialization''"

text \<open>
  How an \<open>async\<close> method ends: its promise resolves, rejects, or is never settled.
  Each \<open>async\<close> method is modelled as one uninterrupted run (no other call of the
  adapter between its \<open>await\<close>s).
\<close>

datatype 'a completion = Resolved 'a | Rejected js_error | Pending

text \<open>The calls the adapter makes into the SDK, and everything else it does that can be observed.\<close>

datatype sdk_call =
  GetInstance
| SetOptions string
| GetCurrentSession
| GetCastState
| AddEventListener CastContextEventType
| AddMessageListener CastSession string
| SessionSendMessage CastSession string json

datatype effect =
  SdkCall sdk_call
| ConsoleError string
| ScriptInjected
| Published string payload
| Invoked string listener payload

text \<open>
  The state outside the adapter: the clock (milliseconds), what the SDK context would
  answer to \<open>getCurrentSession()\<close> and \<open>getCastState()\<close>, the native listeners
  registered on the context and on sessions (each a closure over the adapter that
  registered it), and the trace of observable effects.
\<close>

record world =
  now :: nat
  sdkCurrentSession :: "CastSession option"
  sdkCastState :: CastState
  contextListeners :: "(CastContextEventType \<times> ref) list"
  messageListeners :: "(CastSession \<times> string \<times> ref) list"
  effects :: "effect list"

text \<open>
  What the environment decides: what each listener does when called, what
  \<open>JSON.parse\<close> makes of a string (\<open>None\<close>: it throws), when \<open>window.cast?.framework\<close>
  is there, whether the script loads, after how long the SDK calls
  \<open>__onGCastApiAvailable(true)\<close> (\<open>None\<close>: never), and how the SDK's
  \<open>addMessageListener\<close> and \<open>sendMessage\<close> end.
\<close>

record env =
  listenerBody :: "listener \<Rightarrow> payload \<Rightarrow> js_error option"
  JSON_parse :: "string \<Rightarrow> json option"
  frameworkAt :: "nat \<Rightarrow> bool"
  scriptLoads :: bool
  apiAvailableAfter :: "nat option"
  addMessageListenerThrows :: "CastSession \<Rightarrow> js_error option"
  sessionSendMessage :: "CastSession \<Rightarrow> string \<Rightarrow> json \<Rightarrow> unit completion"

section \<open>The adapter: class \<open>CastManager\<close>\<close>

text \<open>
  \<open>CastManagerConfig\<close> has two optional fields; the class stores
  \<open>Required<CastManagerConfig>\<close>, with the defaults filled in by the constructor.
\<close>

record CastManagerConfig =
  receiverApplicationId_in :: string
  autoInitialize_in :: "bool option"
  namespace_in :: "string option"

record RequiredConfig =
  receiverApplicationId :: string
  autoInitialize :: bool
  namespace :: string

text \<open>
  \<^verbatim>\<open>class CastManager extends EventEmitter {
    private context: any = null; private session: any = null;
    private initialized = false; private config: Required<CastManagerConfig>; ... }\<close>

  \<open>self\<close> is the identity of the object (what \<open>CastManager.instance === this\<close>
  compares).
\<close>

record CastManager = EventEmitter +
  self :: ref
  context' :: "CastContext option"
  session :: "CastSession option"
  initialized :: bool
  config :: RequiredConfig

definition new_CastManager :: "CastManagerConfig \<Rightarrow> ref \<Rightarrow> CastManager" where
  "new_CastManager c r =
     \<lparr> listeners = Map.empty,
       self = r,
       context' = None,
       session = None,
       initialized = False,
       config = \<lparr> receiverApplicationId = receiverApplicationId_in c,
                  autoInitialize = (case autoInitialize_in c of None \<Rightarrow> False | Some b \<Rightarrow> b),
                  namespace = (case namespace_in c of None \<Rightarrow> ''urn:x-cast:com.custom'' | Some n \<Rightarrow> n) \<rparr> \<rparr>"

definition record_effects :: "effect list \<Rightarrow> world \<Rightarrow> world" where
  "record_effects es w = w\<lparr>effects := effects w @ es\<rparr>"

text \<open>
  \<open>this.emit(event, data)\<close> on the adapter: the emitter's \<open>emit\<close>, with the
  publication and each call of a listener written to the trace.
\<close>

definition this_emit :: "env \<Rightarrow> CastManager \<Rightarrow> string \<Rightarrow> payload \<Rightarrow> world \<Rightarrow> js_error option \<times> world" where
  "this_emit E a event d w =
     (case emit (listenerBody E) a event d of
        (called, r) \<Rightarrow> (r, record_effects (Published event d # map (\<lambda>l. Invoked event l d) called) w))"

subsection \<open>Loading the SDK\<close>

text \<open>
  \<^verbatim>\<open>let attempts = 0;
  while (!window.cast?.framework && attempts < 20) {
    await new Promise((r) => setTimeout(r, 100)); attempts++; }
  if (!window.cast?.framework) throw new Error("Cast framework failed to initialize.");\<close>

  The loop on the clock \<open>t\<close> and the counter \<open>attempts\<close>; it returns both as they
  are when the loop is left. The test after the loop reads the framework object at the
  same instant as the loop's last test.
\<close>

function waitLoop :: "(nat \<Rightarrow> bool) \<Rightarrow> nat \<Rightarrow> nat \<Rightarrow> nat \<times> nat" where
  "waitLoop fw t attempts =
     (if \<not> fw t \<and> attempts < 20 then waitLoop fw (t + 100) (attempts + 1) else (t, attempts))"
  by pat_completeness auto
termination
  by (relation "measure (\<lambda>(fw, t, attempts). 20 - attempts)") auto

declare waitLoop.simps [simp del]

definition waitForCastFramework :: "env \<Rightarrow> world \<Rightarrow> unit completion \<times> world" where
  "waitForCastFramework E w =
     (case waitLoop (frameworkAt E) (now w) 0 of
        (t, attempts) \<Rightarrow>
          (if \<not> frameworkAt E t then (Rejected FrameworkTimeoutError, w\<lparr>now := t\<rparr>)
           else (Resolved (), w\<lparr>now := t\<rparr>)))"

text \<open>
  \<open>loadCastFramework\<close>: nothing to do when the framework object is there; otherwise
  inject the script (rejects when the script fails to load), wait for the SDK to call
  \<open>__onGCastApiAvailable(true)\<close> (a promise with no timeout: never settled when the
  call never comes), then poll.
\<close>

definition loadCastFramework :: "env \<Rightarrow> world \<Rightarrow> unit completion \<times> world" where
  "loadCastFramework E w =
     (if frameworkAt E (now w) then (Resolved (), w)
      else
        let w1 = record_effects [ScriptInjected] w in
        if \<not> scriptLoads E then (Rejected ScriptLoadError, w1)
        else (case apiAvailableAfter E of
                None \<Rightarrow> (Pending, w1)
              | Some d \<Rightarrow> waitForCastFramework E (w1\<lparr>now := now w1 + d\<rparr>)))"

subsection \<open>Messages from the receiver\<close>

text \<open>
  The callback that \<open>setupMessageListener\<close> hands to the session:
  \<^verbatim>\<open>(namespace, message) => {
    try { const parsedMessage = typeof message === "string" ? JSON.parse(message) : message;
          this.emit(CastEventType.MESSAGE_RECEIVED, { namespace, message: parsedMessage }); }
    catch (error) { console.error("Failed to parse receiver message:", error); } }\<close>
  First the conditional expression (\<open>Inl\<close>: \<open>JSON.parse\<close> threw), then the
  \<open>try\<close> block, then the whole callback with its \<open>catch\<close>.
\<close>

definition parseMessage :: "env \<Rightarrow> json \<Rightarrow> js_error + json" where
  "parseMessage E message =
     (case message of
        JStr s \<Rightarrow> (case JSON_parse E s of None \<Rightarrow> Inl SyntaxError | Some v \<Rightarrow> Inr v)
      | v \<Rightarrow> Inr v)"

definition messageCallback_try :: "env \<Rightarrow> CastManager \<Rightarrow> string \<Rightarrow> json \<Rightarrow> world \<Rightarrow> js_error option \<times> world" where
  "messageCallback_try E a ns message w =
     (case parseMessage E message of
        Inl e \<Rightarrow> (Some e, w)
      | Inr parsedMessage \<Rightarrow> this_emit E a MESSAGE_RECEIVED (MessageReceivedEvent ns parsedMessage) w)"

definition messageCallback :: "env \<Rightarrow> CastManager \<Rightarrow> string \<Rightarrow> json \<Rightarrow> world \<Rightarrow> js_error option \<times> world" where
  "messageCallback E a ns message w =
     (case messageCallback_try E a ns message w of
        (Some e, w1) \<Rightarrow> (None, record_effects [ConsoleError ''Failed to parse receiver message:''] w1)
      | (None, w1) \<Rightarrow> (None, w1))"

text \<open>
  \<^verbatim>\<open>private setupMessageListener(): void {
    if (!this.session) return;
    try { this.session.addMessageListener(this.config.namespace, <callback>); }
    catch (error) { console.error("Failed to add message listener:", error); } }\<close>
\<close>

definition setupMessageListener :: "env \<Rightarrow> CastManager \<Rightarrow> world \<Rightarrow> js_error option \<times> world" where
  "setupMessageListener E a w =
     (case session a of
        None \<Rightarrow> (None, w)
      | Some s \<Rightarrow>
          let w1 = record_effects [SdkCall (AddMessageListener s (namespace (config a)))] w in
          (case addMessageListenerThrows E s of
             Some e \<Rightarrow> (None, record_effects [ConsoleError ''Failed to add message listener:''] w1)
           | None \<Rightarrow> (None, w1\<lparr>messageListeners := messageListeners w1 @ [(s, namespace (config a), self a)]\<rparr>)))"

text \<open>
  The receiver's messages on one channel, one after the other: each is handed to the
  callback. The adapter is not changed by the callback.
\<close>

fun receiveAll :: "env \<Rightarrow> CastManager \<Rightarrow> string \<Rightarrow> json list \<Rightarrow> world \<Rightarrow> js_error option \<times> world" where
  "receiveAll E a ns [] w = (None, w)"
| "receiveAll E a ns (m # ms) w =
     (case messageCallback E a ns m w of
        (Some e, w1) \<Rightarrow> (Some e, w1)
      | (None, w1) \<Rightarrow> receiveAll E a ns ms w1)"

subsection \<open>\<open>initialize\<close> and the two native handlers\<close>

text \<open>
  The handler of the context's \<open>CAST_STATE_CHANGED\<close>:
  \<^verbatim>\<open>(event) => { this.emit(CastEventType.CAST_STATE_CHANGED, { castState: event.castState }); }\<close>
\<close>

definition castStateHandler :: "env \<Rightarrow> CastState \<Rightarrow> CastManager \<Rightarrow> world \<Rightarrow> js_error option \<times> CastManager \<times> world" where
  "castStateHandler E cs a w =
     (case this_emit E a CAST_STATE_CHANGED (CastStateChangeEvent cs) w of (r, w1) \<Rightarrow> (r, a, w1))"

text \<open>
  The handler of the context's \<open>SESSION_STATE_CHANGED\<close>:
  \<^verbatim>\<open>(event) => {
    const sessionState = event.sessionState;
    if (sessionState === SESSION_STARTED || sessionState === SESSION_RESUMED) {
      this.session = this.context.getCurrentSession(); this.setupMessageListener();
    } else if (sessionState === SESSION_ENDED) { this.session = null; }
    this.emit(CastEventType.SESSION_STATE_CHANGED, { sessionState, session: this.session }); }\<close>
  \<open>this.context.getCurrentSession()\<close> has no \<open>?.\<close>: with \<open>this.context\<close> null
  (after \<open>destroy\<close>) it throws a \<open>TypeError\<close>.
\<close>

definition sessionStateHandler :: "env \<Rightarrow> SessionState \<Rightarrow> CastManager \<Rightarrow> world \<Rightarrow> js_error option \<times> CastManager \<times> world" where
  "sessionStateHandler E sessionState a w =
     (let publish = (\<lambda>a1 w1.
            case this_emit E a1 SESSION_STATE_CHANGED (SessionStateChangeEvent sessionState (session a1)) w1 of
              (r, w2) \<Rightarrow> (r, a1, w2))
      in
      if sessionState = SESSION_STARTED \<or> sessionState = SESSION_RESUMED then
        (case context' a of
           None \<Rightarrow> (Some TypeError, a, w)
         | Some c \<Rightarrow>
             let a1 = a\<lparr>session := sdkCurrentSession w\<rparr>;
                 w1 = record_effects [SdkCall GetCurrentSession] w
             in (case setupMessageListener E a1 w1 of
                   (Some e, w2) \<Rightarrow> (Some e, a1, w2)
                 | (None, w2) \<Rightarrow> publish a1 w2))
      else if sessionState = SESSION_ENDED then publish (a\<lparr>session := None\<rparr>) w
      else publish a w)"

text \<open>
  The SDK delivers a lifecycle event: it has made \<open>cur\<close> its current session, then
  calls the handler with the new state. A sequence of events is delivered in order; a
  handler that throws does not stop the SDK from delivering the next event.
\<close>

definition deliver :: "env \<Rightarrow> SessionState \<times> CastSession option \<Rightarrow> CastManager \<times> world \<Rightarrow> CastManager \<times> world" where
  "deliver E ev aw =
     (case ev of (sessionState, cur) \<Rightarrow>
        (case aw of (a, w) \<Rightarrow>
           snd (sessionStateHandler E sessionState a (w\<lparr>sdkCurrentSession := cur\<rparr>))))"

fun deliverAll :: "env \<Rightarrow> (SessionState \<times> CastSession option) list \<Rightarrow> CastManager \<times> world \<Rightarrow> CastManager \<times> world" where
  "deliverAll E [] aw = aw"
| "deliverAll E (ev # evs) aw = deliverAll E evs (deliver E ev aw)"

text \<open>
  \<^verbatim>\<open>async initialize(): Promise<void> {
    if (this.initialized) return;
    await this.loadCastFramework();
    this.context = window.cast.framework.CastContext.getInstance();
    this.context.setOptions({ receiverApplicationId: ..., autoJoinPolicy: ORIGIN_SCOPED });
    this.session = this.context.getCurrentSession();
    const initialState = this.context.getCastState();
    this.emit(CastEventType.CAST_STATE_CHANGED, { castState: initialState });
    this.context.addEventListener(CAST_STATE_CHANGED, <handler>);
    this.context.addEventListener(SESSION_STATE_CHANGED, <handler>);
    if (this.session) this.setupMessageListener();
    this.initialized = true; }\<close>
  An exception of a listener called by the \<open>emit\<close> rejects the promise there, with the
  fields already assigned. The calls into the SDK that the class does not guard
  (\<open>getInstance\<close>, \<open>setOptions\<close>, \<open>getCurrentSession\<close>, \<open>getCastState\<close>,
  \<open>addEventListener\<close>) are taken to return.
\<close>

definition initialize :: "env \<Rightarrow> CastManager \<Rightarrow> world \<Rightarrow> unit completion \<times> CastManager \<times> world" where
  "initialize E a w =
     (if initialized a then (Resolved (), a, w)
      else
        (case loadCastFramework E w of
           (Pending, w1) \<Rightarrow> (Pending, a, w1)
         | (Rejected e, w1) \<Rightarrow> (Rejected e, a, w1)
         | (Resolved u, w1) \<Rightarrow>
             let a1 = a\<lparr>context' := Some CastContextInstance\<rparr>;
                 w2 = record_effects
                        [SdkCall GetInstance, SdkCall (SetOptions (receiverApplicationId (config a)))] w1;
                 a2 = a1\<lparr>session := sdkCurrentSession w2\<rparr>;
                 w3 = record_effects [SdkCall GetCurrentSession, SdkCall GetCastState] w2
             in (case this_emit E a2 CAST_STATE_CHANGED (CastStateChangeEvent (sdkCastState w3)) w3 of
                   (Some e, w4) \<Rightarrow> (Rejected e, a2, w4)
                 | (None, w4) \<Rightarrow>
                     let w5 = record_effects
                                [SdkCall (AddEventListener Native_CAST_STATE_CHANGED),
                                 SdkCall (AddEventListener Native_SESSION_STATE_CHANGED)]
                                (w4\<lparr>contextListeners := contextListeners w4 @
                                       [(Native_CAST_STATE_CHANGED, self a), (Native_SESSION_STATE_CHANGED, self a)]\<rparr>);
                         w6 = (if session a2 \<noteq> None then snd (setupMessageListener E a2 w5) else w5)
                     in (Resolved (), a2\<lparr>initialized := True\<rparr>, w6))))"

subsection \<open>\<open>sendMessage\<close>\<close>

text \<open>
  \<^verbatim>\<open>async sendMessage(message: any): Promise<void> {
    if (!this.session) { this.session = this.context?.getCurrentSession(); }
    if (!this.session) { throw new Error("No Cast session available"); }
    try { await this.session.sendMessage(this.config.namespace, message); }
    catch (error) { console.error("Error sending message:", error); throw error; } }\<close>
  With \<open>this.context\<close> null, \<open>this.context?.getCurrentSession()\<close> is \<open>undefined\<close>
  and nothing is called; \<open>undefined\<close> and \<open>null\<close> are both \<open>None\<close>.
\<close>

definition sendMessage :: "env \<Rightarrow> json \<Rightarrow> CastManager \<Rightarrow> world \<Rightarrow> unit completion \<times> CastManager \<times> world" where
  "sendMessage E message a w =
     (case (if session a = None then
              (case context' a of
                 None \<Rightarrow> (a\<lparr>session := None\<rparr>, w)
               | Some c \<Rightarrow> (a\<lparr>session := sdkCurrentSession w\<rparr>, record_effects [SdkCall GetCurrentSession] w))
            else (a, w)) of
        (a1, w1) \<Rightarrow>
          (case session a1 of
             None \<Rightarrow> (Rejected NoSessionError, a1, w1)
           | Some s \<Rightarrow>
               let w2 = record_effects [SdkCall (SessionSendMessage s (namespace (config a1)) message)] w1 in
               (case sessionSendMessage E s (namespace (config a1)) message of
                  Resolved u \<Rightarrow> (Resolved (), a1, w2)
                | Rejected e \<Rightarrow> (Rejected e, a1, record_effects [ConsoleError ''Error sending message:''] w2)
                | Pending \<Rightarrow> (Pending, a1, w2))))"

subsection \<open>The singleton and \<open>destroy\<close>\<close>

text \<open>
  \<^verbatim>\<open>destroy(): void {
    this.removeAllListeners(); this.session = null; this.context = null;
    this.initialized = false;
    if (CastManager.instance === this) { CastManager.instance = null; } }\<close>
  The static field \<open>CastManager.instance\<close> is the second argument and the second result.
\<close>

definition destroy :: "CastManager \<Rightarrow> ref option \<Rightarrow> CastManager \<times> ref option" where
  "destroy a inst =
     ((removeAllListeners None a)\<lparr>session := None, context' := None, initialized := False\<rparr>,
      (if inst = Some (self a) then None else inst))"

text \<open>
  The objects of the class and its static field. An object's reference is its index in
  \<open>objects\<close>, so a new object never has the reference of an old one. The constructor
  with \<open>autoInitialize\<close> starts \<open>this.initialize()\<close> without awaiting it: the call
  gets past no \<open>await\<close> before the constructor returns, so the object is returned as
  constructed and the started call is noted in \<open>autoInitStarted\<close>.
\<close>

record program =
  instance' :: "ref option"
  objects :: "CastManager list"
  autoInitStarted :: "ref list"

definition construct :: "CastManagerConfig \<Rightarrow> program \<Rightarrow> ref \<times> program" where
  "construct c p =
     (let r = length (objects p); a = new_CastManager c r
      in (r, p\<lparr>objects := objects p @ [a],
                autoInitStarted := (if autoInitialize (config a) then autoInitStarted p @ [r]
                                    else autoInitStarted p)\<rparr>))"

text \<open>
  \<^verbatim>\<open>static getInstance(config?: CastManagerConfig): CastManager {
    if (!CastManager.instance) {
      if (!config) { throw new Error("CastManager config required for first initialization"); }
      CastManager.instance = new CastManager(config); }
    return CastManager.instance; }\<close>
\<close>

definition getInstance :: "CastManagerConfig option \<Rightarrow> program \<Rightarrow> (js_error + ref) \<times> program" where
  "getInstance cfg p =
     (case instance' p of
        Some r \<Rightarrow> (Inr r, p)
      | None \<Rightarrow>
          (case cfg of
             None \<Rightarrow> (Inl ConfigRequiredError, p)
           | Some c \<Rightarrow> (case construct c p of (r, p1) \<Rightarrow> (Inr r, p1\<lparr>instance' := Some r\<rparr>))))"

text \<open>\<open>destroy()\<close> called on the object with reference \<open>r\<close>.\<close>

definition destroyAt :: "ref \<Rightarrow> program \<Rightarrow> program" where
  "destroyAt r p =
     (if r < length (objects p) then
        (case destroy (objects p ! r) (instance' p) of
           (a, inst) \<Rightarrow> p\<lparr>objects := (objects p)[r := a], instance' := inst\<rparr>)
      else p)"

text \<open>
  What a program can do with the class: call \<open>getInstance\<close>, call the constructor,
  call \<open>destroy()\<close> on an object. A sequence of such calls is run with \<open>fold\<close>.
\<close>

datatype program_call =
  CallGetInstance "CastManagerConfig option" | CallNew CastManagerConfig | CallDestroy ref

fun program_step :: "program_call \<Rightarrow> program \<Rightarrow> program" where
  "program_step (CallGetInstance cfg) p = snd (getInstance cfg p)"
| "program_step (CallNew c) p = snd (construct c p)"
| "program_step (CallDestroy r) p = destroyAt r p"

section \<open>Auxiliary notions and example inputs\<close>

text \<open>
  \<open>registered\<close>: the listener is in the set of the event. \<open>wf_event\<close>: the list that
  stands for the set of the event has no duplicates, as every set built by \<open>on\<close>,
  \<open>off\<close> and \<open>removeAllListeners\<close> from the empty map has.
\<close>

definition registered :: "'a EventEmitter_scheme \<Rightarrow> string \<Rightarrow> listener \<Rightarrow> bool" where
  "registered em e l = (case listeners em e of None \<Rightarrow> False | Some xs \<Rightarrow> l \<in> set xs)"

definition wf_event :: "'a EventEmitter_scheme \<Rightarrow> string \<Rightarrow> bool" where
  "wf_event em e = (case listeners em e of None \<Rightarrow> True | Some xs \<Rightarrow> distinct xs)"

text \<open>
  An emitter with listeners 1 and 2 on event \<open>e\<close>, registered in this order, and two
  behaviours of listeners: listener 1 throws, or nobody does.
\<close>

definition two_listeners :: EventEmitter where
  "two_listeners = on ''e'' 2 (on ''e'' 1 \<lparr>listeners = Map.empty\<rparr>)"

definition throws_first :: "listener \<Rightarrow> unit \<Rightarrow> js_error option" where
  "throws_first l d = (if l = 1 then Some TypeError else None)"

definition never_throws :: "listener \<Rightarrow> unit \<Rightarrow> js_error option" where
  "never_throws l d = None"

text \<open>A run with three publishes of \<open>e\<close>, between them a subscribe and an unsubscribe of other listeners.\<close>

definition three_publishes :: "unit call list" where
  "three_publishes = [Emit ''e'' (), On ''e'' 3, Emit ''e'' (), Off ''e'' 1, Emit ''e'' ()]"

text \<open>
  Example environments and an initial world: the framework object is there from the
  start (\<open>env0\<close>), never (\<open>env_never\<close>), or from 300 ms on (\<open>env_late\<close>);
  \<open>only_null\<close> is a \<open>JSON.parse\<close> that accepts only \<open>null\<close>.
\<close>

definition only_null :: "string \<Rightarrow> json option" where
  "only_null s = (if s = ''null'' then Some JNull else None)"

definition env0 :: env where
  "env0 = \<lparr> listenerBody = (\<lambda>l d. None),
            JSON_parse = only_null,
            frameworkAt = (\<lambda>t. True),
            scriptLoads = True,
            apiAvailableAfter = Some 0,
            addMessageListenerThrows = (\<lambda>s. None),
            sessionSendMessage = (\<lambda>s ns m. Resolved ()) \<rparr>"

definition env_never :: env where
  "env_never = env0\<lparr>frameworkAt := (\<lambda>t. False)\<rparr>"

definition env_late :: env where
  "env_late = env0\<lparr>frameworkAt := (\<lambda>t. 300 \<le> t)\<rparr>"

definition w0 :: world where
  "w0 = \<lparr> now = 0, sdkCurrentSession = None, sdkCastState = NOT_CONNECTED,
           contextListeners = [], messageListeners = [], effects = [] \<rparr>"

text \<open>
  An adapter as the constructor makes it (\<open>fresh\<close>), and the adapter and world after
  \<open>initialize\<close> has resolved: \<open>ready\<close> when the SDK has no session then,
  \<open>captured\<close> when the SDK already has session 7 (a session joined before the page
  was loaded). No lifecycle event has been delivered in either.
\<close>

definition cfg0 :: CastManagerConfig where
  "cfg0 = \<lparr> receiverApplicationId_in = ''ABCD1234'', autoInitialize_in = None, namespace_in = None \<rparr>"

definition fresh :: CastManager where
  "fresh = new_CastManager cfg0 0"

definition ready :: "CastManager \<times> world" where
  "ready = snd (initialize env0 fresh w0)"

definition captured :: "CastManager \<times> world" where
  "captured = snd (initialize env0 fresh (w0\<lparr>sdkCurrentSession := Some 7\<rparr>))"

text \<open>\<open>listening\<close>: the initialized adapter with listener 5 on \<open>messageReceived\<close>.\<close>

definition listening :: CastManager where
  "listening = on MESSAGE_RECEIVED 5 (fst ready)"

text \<open>Every effect but a line on the console.\<close>

definition not_console :: "effect \<Rightarrow> bool" where
  "not_console x = (case x of ConsoleError s \<Rightarrow> False | _ \<Rightarrow> True)"

text \<open>
  The lifecycle events the handler acts on: "started", "resumed" and "ended". Two
  sequences of events, each with the session the SDK holds when it fires the event.
\<close>

definition decisive :: "SessionState \<times> CastSession option \<Rightarrow> bool" where
  "decisive ev = (fst ev = SESSION_STARTED \<or> fst ev = SESSION_RESUMED \<or> fst ev = SESSION_ENDED)"

definition four_events :: "(SessionState \<times> CastSession option) list" where
  "four_events = [(SESSION_STARTING, None), (SESSION_STARTED, Some 7), (SESSION_ENDING, Some 7), (NO_SESSION, None)]"

definition five_events :: "(SessionState \<times> CastSession option) list" where
  "five_events = [(SESSION_STARTING, None), (SESSION_STARTED, Some 7), (SESSION_ENDING, Some 7),
                  (SESSION_ENDED, None), (NO_SESSION, None)]"

text \<open>
  In a program state built by the constructor, the identity an object carries is its
  reference. \<open>program0\<close>: no object yet. \<open>two_objects\<close>: the singleton (reference 0)
  and a second adapter made with \<open>new CastManager(config)\<close> (reference 1).
\<close>

definition wf_program :: "program \<Rightarrow> bool" where
  "wf_program p = (map self (objects p) = [0..<length (objects p)])"

definition program0 :: program where
  "program0 = \<lparr> instance' = None, objects = [], autoInitStarted = [] \<rparr>"

definition two_objects :: program where
  "two_objects = snd (construct cfg0 (snd (getInstance (Some cfg0) program0)))"


section \<open>Properties\<close>

subsection \<open>Facts about the emitter\<close>

lemma forEach_no_throw:
  "(\<And>x. x \<in> set xs \<Longrightarrow> body x d = None) \<Longrightarrow> forEach body xs d = (xs, None)"
  by (induction xs) auto

lemma forEach_throw:
  "(\<And>x. x \<in> set xs \<Longrightarrow> body x d = None) \<Longrightarrow> body l d = Some e
    \<Longrightarrow> forEach body (xs @ l # ys) d = (xs @ [l], Some e)"
  by (induction xs) auto

lemma forEach_called_subset: "set (fst (forEach body xs d)) \<subseteq> set xs"
  by (induction xs) (auto split: option.splits prod.splits)

lemma emit_called_subset:
  "l \<in> set (fst (emit body em e d)) \<Longrightarrow> \<exists>xs. listeners em e = Some xs \<and> l \<in> set xs"
  using forEach_called_subset [of body _ d]
  by (auto simp: emit_def split: option.splits)

lemma on_listeners:
  "listeners (on e l em) =
     (listeners em)(e \<mapsto> set_add (case listeners em e of None \<Rightarrow> [] | Some xs \<Rightarrow> xs) l)"
  by (auto simp: on_def Let_def split: option.splits)



lemma count_distinct: "distinct xs \<Longrightarrow> l \<in> set xs \<Longrightarrow> count_list xs l = 1"
  by (induction xs) auto






lemma wf_empty: "wf_event \<lparr>listeners = Map.empty\<rparr> e"
  by (simp add: wf_event_def)




lemma two_listeners_e: "listeners two_listeners ''e'' = Some [1, 2]"
  by (simp add: two_listeners_def on_def set_add_def)

subsection \<open>Publishing when a listener throws\<close>

text \<open>
  C3, as the spec states it: if one listener throws during publish, every remaining
  registered listener for that event is still invoked. The emitter does not do that:
  with listeners 1 and 2 registered on \<open>e\<close> and listener 1 throwing, \<open>emit\<close> calls
  listener 1, the exception escapes, and listener 2 is not called.
\<close>

theorem emit_isolation_counterexample:
  "registered two_listeners ''e'' 2 \<and> throws_first 1 () = Some TypeError
   \<and> emit throws_first two_listeners ''e'' () = ([1], Some TypeError)
   \<and> 2 \<notin> set (fst (emit throws_first two_listeners ''e'' ()))"
  by (simp add: registered_def two_listeners_e emit_def throws_first_def)

text \<open>
  C3, amended: publish calls the registered listeners of the event in registration
  order. If none of them throws, each is called once and publish returns. If one throws,
  the listeners before it and the throwing one have been called, the exception leaves
  publish, and the listeners registered after it are not called.
\<close>

theorem emit_stops_at_first_throw:
  "(listeners em e = Some zs \<and> (\<forall>x\<in>set zs. body x d = None) \<longrightarrow> emit body em e d = (zs, None))
   \<and> (listeners em e = Some (xs @ l # ys) \<and> (\<forall>x\<in>set xs. body x d = None) \<and> body l d = Some err
        \<longrightarrow> emit body em e d = (xs @ [l], Some err))"
  by (simp add: emit_def forEach_no_throw forEach_throw)

theorem emit_stops_at_first_throw_witness:
  "emit never_throws two_listeners ''e'' () = ([1, 2], None)
   \<and> emit throws_first two_listeners ''e'' () = ([1], Some TypeError)"
proof -
  have a: "listeners two_listeners ''e'' = Some [1, 2]
      \<and> (\<forall>x\<in>set [1, 2 :: nat]. never_throws x () = None)"
    by (simp add: two_listeners_e never_throws_def)
  have b: "listeners two_listeners ''e'' = Some ([] @ 1 # [2])
      \<and> (\<forall>x\<in>set ([] :: nat list). throws_first x () = None)
      \<and> throws_first 1 () = Some TypeError"
    by (simp add: two_listeners_e throws_first_def)
  from emit_stops_at_first_throw [where em = two_listeners and e = "''e''" and zs = "[1, 2]"
      and body = never_throws and d = "()"] a
  have c: "emit never_throws two_listeners ''e'' () = ([1, 2], None)" by simp
  from emit_stops_at_first_throw [where em = two_listeners and e = "''e''" and xs = "[]" and l = 1
      and ys = "[2]" and body = throws_first and d = "()" and err = TypeError] b
  have "emit throws_first two_listeners ''e'' () = ([1], Some TypeError)" by simp
  with c show ?thesis by simp
qed

subsection \<open>Subscribing twice\<close>









subsection \<open>Unsubscribing\<close>

lemma not_registered_on: "\<not> registered em e l \<Longrightarrow> (e', l') \<noteq> (e, l) \<Longrightarrow> \<not> registered (on e' l' em) e l"
  by (auto simp: registered_def on_listeners set_add_def split: option.splits if_splits)

lemma not_registered_off: "\<not> registered em e l \<Longrightarrow> \<not> registered (off e' l' em) e l"
  by (auto simp: registered_def off_def set_delete_def split: option.splits if_splits)

lemma not_registered_removeAll: "\<not> registered em e l \<Longrightarrow> \<not> registered (removeAllListeners ev em) e l"
  by (auto simp: registered_def removeAllListeners_def split: option.splits if_splits)

lemma off_not_registered: "\<not> registered (off e l em) e l"
  by (simp add: registered_def off_def set_delete_def split: option.splits)

lemma emit_not_registered: "\<not> registered em e l \<Longrightarrow> l \<notin> set (fst (emit body em e d))"
  using emit_called_subset [of l body em e d] by (auto simp: registered_def)

lemma step_not_registered:
  "\<not> registered em e l \<Longrightarrow> On e l \<noteq> c \<Longrightarrow> \<not> registered (fst (step body c em)) e l"
  by (cases c) (auto simp: not_registered_on not_registered_off not_registered_removeAll)

lemma step_not_invoked:
  "\<not> registered em e l \<Longrightarrow> (e, l, d) \<notin> set (snd (step body c em))"
  by (cases c) (auto simp: emit_not_registered)

lemma run_not_invoked:
  "\<not> registered em e l \<Longrightarrow> On e l \<notin> set cs \<Longrightarrow> (e, l, d) \<notin> set (snd (run body cs em))"
proof (induction cs arbitrary: em)
  case Nil
  then show ?case by simp
next
  case (Cons c cs)
  from Cons.prems have nr: "\<not> registered (fst (step body c em)) e l"
    by (simp add: step_not_registered)
  from Cons.prems have "On e l \<notin> set cs" by simp
  with nr have "(e, l, d) \<notin> set (snd (run body cs (fst (step body c em))))"
    by (rule Cons.IH)
  moreover from Cons.prems have "(e, l, d) \<notin> set (snd (step body c em))"
    by (simp add: step_not_invoked)
  ultimately show ?case by (auto split: prod.splits)
qed

text \<open>
  C9: after \<open>off(e, l)\<close>, no later publish calls \<open>l\<close> for \<open>e\<close>: in every run of
  calls of the emitter that does not subscribe \<open>l\<close> to \<open>e\<close> again, with whatever
  payloads and whatever the listeners do, \<open>l\<close> is never invoked for \<open>e\<close>. The same
  holds when \<open>l\<close> was subscribed again and unsubscribed again before the run.
\<close>

theorem unsubscribed_listener_never_called:
  "(On e l \<notin> set cs \<longrightarrow> (e, l, d) \<notin> set (snd (run body cs (off e l em))))
   \<and> (On e l \<notin> set cs \<longrightarrow> (e, l, d) \<notin> set (snd (run body cs (off e l (on e l (off e l em))))))"
  by (simp add: run_not_invoked off_not_registered)

theorem unsubscribed_listener_never_called_witness:
  "On ''e'' 2 \<notin> set three_publishes
   \<and> (''e'', 2, ()) \<notin> set (snd (run never_throws three_publishes (off ''e'' 2 two_listeners)))
   \<and> (''e'', 2, ()) \<notin> set (snd (run never_throws three_publishes
         (off ''e'' 2 (on ''e'' 2 (off ''e'' 2 two_listeners)))))"
proof -
  have h: "On ''e'' 2 \<notin> set three_publishes" by (simp add: three_publishes_def)
  from unsubscribed_listener_never_called [where e = "''e''" and l = 2 and cs = three_publishes
      and d = "()" and body = never_throws and em = two_listeners] h
  show ?thesis by simp
qed


subsection \<open>The polling loop\<close>

lemma waitLoop_exit: "fw t \<or> \<not> attempts < 20 \<Longrightarrow> waitLoop fw t attempts = (t, attempts)"
  by (subst waitLoop.simps) auto

lemma waitLoop_step:
  "\<not> fw t \<Longrightarrow> attempts < 20 \<Longrightarrow> waitLoop fw t attempts = waitLoop fw (t + 100) (attempts + 1)"
  by (subst waitLoop.simps) simp

lemma waitLoop_found:
  "fw (t + 100 * k) \<Longrightarrow> (\<forall>j<k. \<not> fw (t + 100 * j)) \<Longrightarrow> a + k \<le> 20
    \<Longrightarrow> waitLoop fw t a = (t + 100 * k, a + k)"
proof (induction k arbitrary: t a)
  case 0
  then show ?case by (simp add: waitLoop_exit)
next
  case (Suc k)
  from Suc.prems have nf: "\<not> fw t" by (metis add.right_neutral mult_zero_right zero_less_Suc)
  from Suc.prems have lt: "a < 20" by simp
  have "waitLoop fw (t + 100) (a + 1) = (t + 100 + 100 * k, a + 1 + k)"
  proof (rule Suc.IH)
    from Suc.prems show "fw (t + 100 + 100 * k)" by (simp add: algebra_simps)
    show "\<forall>j<k. \<not> fw (t + 100 + 100 * j)"
    proof (intro allI impI)
      fix j assume "j < k"
      then have "Suc j < Suc k" by simp
      with Suc.prems have "\<not> fw (t + 100 * Suc j)" by blast
      then show "\<not> fw (t + 100 + 100 * j)" by (simp add: algebra_simps)
    qed
    from Suc.prems show "a + 1 + k \<le> 20" by simp
  qed
  with nf lt show ?case by (simp add: waitLoop_step algebra_simps)
qed

lemma waitLoop_timeout:
  "(\<forall>j. a + j \<le> 20 \<longrightarrow> \<not> fw (t + 100 * j)) \<Longrightarrow> a \<le> 20
    \<Longrightarrow> waitLoop fw t a = (t + 100 * (20 - a), 20)"
proof (induction fw t a rule: waitLoop.induct)
  case (1 fw t attempts)
  show ?case
  proof (cases "attempts < 20")
    case True
    from "1.prems" have nf: "\<not> fw t" by (metis add.right_neutral mult_zero_right)
    have "waitLoop fw (t + 100) (attempts + 1) = (t + 100 + 100 * (20 - (attempts + 1)), 20)"
    proof (rule "1.IH")
      from nf True show "\<not> fw t \<and> attempts < 20" by simp
      show "\<forall>j. attempts + 1 + j \<le> 20 \<longrightarrow> \<not> fw (t + 100 + 100 * j)"
      proof (intro allI impI)
        fix j assume "attempts + 1 + j \<le> 20"
        then have "attempts + Suc j \<le> 20" by simp
        with "1.prems" have "\<not> fw (t + 100 * Suc j)" by blast
        then show "\<not> fw (t + 100 + 100 * j)" by (simp add: algebra_simps)
      qed
      from True show "attempts + 1 \<le> 20" by simp
    qed
    moreover from True have "100 + 100 * (20 - (attempts + 1)) = 100 * (20 - attempts)" by simp
    ultimately show ?thesis using nf True
      by (simp add: waitLoop_step add.assoc)
  next
    case False
    with "1.prems" have "attempts = 20" by simp
    then show ?thesis by (simp add: waitLoop_exit)
  qed
qed

lemma waitLoop_bounds:
  "a \<le> 20 \<Longrightarrow> \<exists>k. a + k \<le> 20 \<and> waitLoop fw t a = (t + 100 * k, a + k)"
proof (induction fw t a rule: waitLoop.induct)
  case (1 fw t attempts)
  show ?case
  proof (cases "\<not> fw t \<and> attempts < 20")
    case True
    with "1.prems" have "\<exists>k. attempts + 1 + k \<le> 20 \<and>
        waitLoop fw (t + 100) (attempts + 1) = (t + 100 + 100 * k, attempts + 1 + k)"
      by (intro "1.IH") simp_all
    then obtain k where k: "attempts + 1 + k \<le> 20"
      "waitLoop fw (t + 100) (attempts + 1) = (t + 100 + 100 * k, attempts + 1 + k)" by blast
    have "attempts + Suc k \<le> 20 \<and> waitLoop fw t attempts = (t + 100 * Suc k, attempts + Suc k)"
      using True k by (simp add: waitLoop_step algebra_simps)
    then show ?thesis by blast
  next
    case False
    then have "waitLoop fw t attempts = (t + 100 * 0, attempts + 0)"
      by (auto simp: waitLoop_exit)
    with "1.prems" show ?thesis by (metis add.right_neutral)
  qed
qed

text \<open>
  C5: the polling phase ends in every environment. It looks for the framework object
  every 100 ms and sleeps at most 20 times (2000 ms). If the object is there at the
  \<open>k\<close>-th look, \<open>k \<le> 20\<close>, and was not before, the phase succeeds after
  \<open>100 * k\<close> ms; if it is there at none of the looks, the phase fails after 2000 ms
  with the error "Cast framework failed to initialize." (the spec's framework init
  timeout). The promise is never left unsettled.
\<close>

theorem polling_is_bounded:
  "(k \<le> 20 \<and> frameworkAt E (now w + 100 * k) \<and> (\<forall>j<k. \<not> frameworkAt E (now w + 100 * j))
      \<longrightarrow> waitForCastFramework E w = (Resolved (), w\<lparr>now := now w + 100 * k\<rparr>))
   \<and> ((\<forall>j\<le>20. \<not> frameworkAt E (now w + 100 * j))
      \<longrightarrow> waitForCastFramework E w = (Rejected FrameworkTimeoutError, w\<lparr>now := now w + 2000\<rparr>))
   \<and> fst (waitForCastFramework E w) \<noteq> Pending
   \<and> snd (waitLoop (frameworkAt E) (now w) 0) \<le> 20
   \<and> now (snd (waitForCastFramework E w)) = now w + 100 * snd (waitLoop (frameworkAt E) (now w) 0)"
proof (intro conjI impI)
  show "waitForCastFramework E w = (Resolved (), w\<lparr>now := now w + 100 * k\<rparr>)"
    if "k \<le> 20 \<and> frameworkAt E (now w + 100 * k) \<and> (\<forall>j<k. \<not> frameworkAt E (now w + 100 * j))"
  proof -
    from that have "waitLoop (frameworkAt E) (now w) 0 = (now w + 100 * k, 0 + k)"
      by (intro waitLoop_found) simp_all
    with that show ?thesis by (simp add: waitForCastFramework_def)
  qed
  show "waitForCastFramework E w = (Rejected FrameworkTimeoutError, w\<lparr>now := now w + 2000\<rparr>)"
    if "\<forall>j\<le>20. \<not> frameworkAt E (now w + 100 * j)"
  proof -
    from that have "waitLoop (frameworkAt E) (now w) 0 = (now w + 100 * (20 - 0), 20)"
      by (intro waitLoop_timeout) simp_all
    moreover from that have "\<not> frameworkAt E (now w + 2000)" 
    proof -
      from that have "\<not> frameworkAt E (now w + 100 * 20)" by blast
      then show ?thesis by simp
    qed
    ultimately show ?thesis by (simp add: waitForCastFramework_def)
  qed
  obtain k where k: "0 + k \<le> 20" "waitLoop (frameworkAt E) (now w) 0 = (now w + 100 * k, 0 + k)"
    using waitLoop_bounds [of 0 "frameworkAt E" "now w"] by auto
  show "fst (waitForCastFramework E w) \<noteq> Pending"
    by (simp add: waitForCastFramework_def split: prod.splits)
  from k show "snd (waitLoop (frameworkAt E) (now w) 0) \<le> 20" by simp
  from k show "now (snd (waitForCastFramework E w)) = now w + 100 * snd (waitLoop (frameworkAt E) (now w) 0)"
    by (simp add: waitForCastFramework_def)
qed

theorem polling_is_bounded_witness:
  "waitForCastFramework env_late w0 = (Resolved (), w0\<lparr>now := 300\<rparr>)
   \<and> waitForCastFramework env_never w0 = (Rejected FrameworkTimeoutError, w0\<lparr>now := 2000\<rparr>)"
proof -
  have a: "(3::nat) \<le> 20 \<and> frameworkAt env_late (now w0 + 100 * 3)
      \<and> (\<forall>j<3. \<not> frameworkAt env_late (now w0 + 100 * j))"
    by (simp add: env_late_def env0_def w0_def)
  have b: "\<forall>j\<le>20. \<not> frameworkAt env_never (now w0 + 100 * j)"
    by (simp add: env_never_def env0_def)
  have n: "now w0 = 0" by (simp add: w0_def)
  from polling_is_bounded [where k = 3 and E = env_late and w = w0] a
  have "waitForCastFramework env_late w0 = (Resolved (), w0\<lparr>now := 300\<rparr>)"
    by (simp add: n)
  moreover from polling_is_bounded [where E = env_never and w = w0] b
  have "waitForCastFramework env_never w0 = (Rejected FrameworkTimeoutError, w0\<lparr>now := 2000\<rparr>)"
    by (simp add: n)
  ultimately show ?thesis by simp
qed


subsection \<open>The example states\<close>

lemma ready_eq:
  "ready = (fresh\<lparr>context' := Some CastContextInstance, initialized := True\<rparr>,
     w0\<lparr>contextListeners := [(Native_CAST_STATE_CHANGED, 0), (Native_SESSION_STATE_CHANGED, 0)],
        effects := [SdkCall GetInstance, SdkCall (SetOptions ''ABCD1234''),
        SdkCall GetCurrentSession, SdkCall GetCastState,
        Published CAST_STATE_CHANGED (CastStateChangeEvent NOT_CONNECTED),
        SdkCall (AddEventListener Native_CAST_STATE_CHANGED),
        SdkCall (AddEventListener Native_SESSION_STATE_CHANGED)]\<rparr>)"
  by (simp add: ready_def initialize_def loadCastFramework_def env0_def w0_def fresh_def
      new_CastManager_def cfg0_def this_emit_def emit_def record_effects_def)

lemma captured_eq:
  "captured = (fresh\<lparr>context' := Some CastContextInstance, session := Some 7, initialized := True\<rparr>,
     w0\<lparr>sdkCurrentSession := Some 7,
        contextListeners := [(Native_CAST_STATE_CHANGED, 0), (Native_SESSION_STATE_CHANGED, 0)],
        messageListeners := [(7, ''urn:x-cast:com.custom'', 0)],
        effects := [SdkCall GetInstance, SdkCall (SetOptions ''ABCD1234''),
        SdkCall GetCurrentSession, SdkCall GetCastState,
        Published CAST_STATE_CHANGED (CastStateChangeEvent NOT_CONNECTED),
        SdkCall (AddEventListener Native_CAST_STATE_CHANGED),
        SdkCall (AddEventListener Native_SESSION_STATE_CHANGED),
        SdkCall (AddMessageListener 7 ''urn:x-cast:com.custom'')]\<rparr>)"
  by (simp add: captured_def initialize_def loadCastFramework_def env0_def w0_def fresh_def
      new_CastManager_def cfg0_def this_emit_def emit_def record_effects_def setupMessageListener_def)

subsection \<open>\<open>initialize\<close> called again\<close>

text \<open>
  C6: on an adapter whose \<open>initialized\<close> flag is true, \<open>initialize()\<close> resolves and
  does nothing: the adapter (listeners, context, session, flag, configuration) and the
  world (the native listeners registered with the SDK, the events published, every other
  effect) are what they were.
\<close>

theorem initialize_twice_is_noop:
  "initialized a \<Longrightarrow> initialize E a w = (Resolved (), a, w)"
  by (simp add: initialize_def)

theorem initialize_twice_is_noop_witness:
  "fst (initialize env0 fresh w0) = Resolved () \<and> initialized (fst ready)
   \<and> initialize env0 (fst ready) (snd ready) = (Resolved (), fst ready, snd ready)"
proof -
  have h: "initialized (fst ready)" by (simp add: ready_eq)
  have r: "fst (initialize env0 fresh w0) = Resolved ()"
    by (simp add: initialize_def loadCastFramework_def env0_def w0_def fresh_def
      new_CastManager_def cfg0_def this_emit_def emit_def record_effects_def)
  from initialize_twice_is_noop [OF h, of env0 "snd ready"] h r show ?thesis by simp
qed

subsection \<open>\<open>sendMessage\<close> without a session handle\<close>

text \<open>
  C8: after \<open>destroy()\<close>, \<open>sendMessage\<close> rejects with the error "No Cast session
  available" (the spec's \<open>NoSessionError\<close>), not with a \<open>TypeError\<close>: the cleared
  context is read through \<open>?.\<close>. Nothing is called and the world is unchanged.
\<close>

theorem sendMessage_after_destroy:
  "sendMessage E m (fst (destroy a inst)) w = (Rejected NoSessionError, fst (destroy a inst), w)
   \<and> session (fst (destroy a inst)) = None \<and> context' (fst (destroy a inst)) = None"
  by (simp add: sendMessage_def destroy_def)

text \<open>
  C1, as the spec states it: in every adapter state in which no "started" or "resumed"
  event has been delivered, \<open>sendMessage\<close> fails with \<open>NoSessionError\<close> and makes no
  call into the SDK. Not so on an initialized adapter, where \<open>sendMessage\<close> first
  asks the context for its current session: in \<open>ready\<close> it fails with
  \<open>NoSessionError\<close> but has called \<open>getCurrentSession\<close>; in \<open>captured\<close>, where
  \<open>initialize\<close> took over a session that was already there, it sends.
\<close>

theorem sendMessage_no_event_counterexample:
  "session (fst ready) = None
   \<and> sendMessage env0 JNull (fst ready) (snd ready)
       = (Rejected NoSessionError, fst ready, record_effects [SdkCall GetCurrentSession] (snd ready))
   \<and> fst (sendMessage env0 JNull (fst captured) (snd captured)) = Resolved ()
   \<and> effects (snd (snd (sendMessage env0 JNull (fst captured) (snd captured))))
       = effects (snd captured) @ [SdkCall (SessionSendMessage 7 ''urn:x-cast:com.custom'' JNull)]"
  by (simp add: ready_eq captured_eq sendMessage_def fresh_def new_CastManager_def cfg0_def
      w0_def record_effects_def env0_def)

text \<open>
  C1, amended: on an adapter that holds no session handle, \<open>sendMessage\<close> fails with
  \<open>NoSessionError\<close> and calls nothing when the adapter holds no context (never
  initialized, or destroyed); when it holds a context it asks the context once for the
  current session, and fails with \<open>NoSessionError\<close>, sending nothing, when the context
  has none; when the context has a session, the adapter takes it as its handle and sends
  the message to it.
\<close>

theorem sendMessage_without_handle:
  "session a = None \<Longrightarrow>
     (context' a = None \<longrightarrow> sendMessage E m a w = (Rejected NoSessionError, a, w))
   \<and> (context' a \<noteq> None \<and> sdkCurrentSession w = None
        \<longrightarrow> sendMessage E m a w = (Rejected NoSessionError, a, record_effects [SdkCall GetCurrentSession] w))
   \<and> (context' a \<noteq> None \<and> sdkCurrentSession w = Some s
        \<longrightarrow> session (fst (snd (sendMessage E m a w))) = Some s
          \<and> SdkCall (SessionSendMessage s (namespace (config a)) m)
               \<in> set (effects (snd (snd (sendMessage E m a w)))))"
  by (auto simp: sendMessage_def record_effects_def Let_def split: option.splits completion.splits)

theorem sendMessage_without_handle_witness:
  "sendMessage env0 JNull fresh w0 = (Rejected NoSessionError, fresh, w0)
   \<and> sendMessage env0 JNull (fst ready) (snd ready)
       = (Rejected NoSessionError, fst ready, record_effects [SdkCall GetCurrentSession] (snd ready))
   \<and> session (fst (snd (sendMessage env0 JNull (fst ready) ((snd ready)\<lparr>sdkCurrentSession := Some 7\<rparr>)))) = Some 7
   \<and> SdkCall (SessionSendMessage 7 ''urn:x-cast:com.custom'' JNull)
        \<in> set (effects (snd (snd (sendMessage env0 JNull (fst ready) ((snd ready)\<lparr>sdkCurrentSession := Some 7\<rparr>)))))"
proof -
  have f: "session fresh = None" "context' fresh = None"
    by (simp_all add: fresh_def new_CastManager_def)
  have r: "session (fst ready) = None" "context' (fst ready) \<noteq> None"
    "sdkCurrentSession (snd ready) = None"
    "namespace (config (fst ready)) = ''urn:x-cast:com.custom''"
    by (simp_all add: ready_eq fresh_def new_CastManager_def w0_def cfg0_def)
  from sendMessage_without_handle [OF f(1), where E = env0 and m = JNull and w = w0] f(2)
  have 1: "sendMessage env0 JNull fresh w0 = (Rejected NoSessionError, fresh, w0)" by simp
  from sendMessage_without_handle [OF r(1), where E = env0 and m = JNull and w = "snd ready"] r(2,3)
  have 2: "sendMessage env0 JNull (fst ready) (snd ready)
       = (Rejected NoSessionError, fst ready, record_effects [SdkCall GetCurrentSession] (snd ready))"
    by simp
  from sendMessage_without_handle [OF r(1), where E = env0 and m = JNull and s = 7
      and w = "(snd ready)\<lparr>sdkCurrentSession := Some 7\<rparr>"] r(2,4)
  have 3: "session (fst (snd (sendMessage env0 JNull (fst ready) ((snd ready)\<lparr>sdkCurrentSession := Some 7\<rparr>)))) = Some 7
   \<and> SdkCall (SessionSendMessage 7 ''urn:x-cast:com.custom'' JNull)
        \<in> set (effects (snd (snd (sendMessage env0 JNull (fst ready) ((snd ready)\<lparr>sdkCurrentSession := Some 7\<rparr>)))))"
    by simp
  from 1 2 3 show ?thesis by simp
qed

subsection \<open>The session handle under lifecycle events\<close>

lemma initialize_sets_context:
  "fst (initialize E a w) = Resolved () \<Longrightarrow> \<not> initialized a
    \<Longrightarrow> initialized (fst (snd (initialize E a w))) \<and> context' (fst (snd (initialize E a w))) \<noteq> None"
  by (auto simp: initialize_def Let_def split: prod.splits completion.splits option.splits)

lemma deliver_session:
  "context' a \<noteq> None \<Longrightarrow>
     session (fst (deliver E (st, cur) (a, w))) =
       (if st = SESSION_STARTED \<or> st = SESSION_RESUMED then cur
        else if st = SESSION_ENDED then None else session a)
   \<and> context' (fst (deliver E (st, cur) (a, w))) = context' a"
  by (auto simp: deliver_def sessionStateHandler_def setupMessageListener_def this_emit_def Let_def
      split: option.splits prod.splits)

lemma deliverAll_append: "deliverAll E (xs @ ys) aw = deliverAll E ys (deliverAll E xs aw)"
  by (induction xs arbitrary: aw) auto

lemma deliverAll_context:
  "context' a \<noteq> None \<Longrightarrow> context' (fst (deliverAll E evs (a, w))) = context' a"
proof (induction evs arbitrary: a w)
  case Nil
  then show ?case by simp
next
  case (Cons ev evs)
  obtain st cur where ev: "ev = (st, cur)" by (cases ev)
  obtain a1 w1 where d: "deliver E (st, cur) (a, w) = (a1, w1)" by (cases "deliver E (st, cur) (a, w)")
  from deliver_session [OF Cons.prems, of E st cur w] d have c: "context' a1 = context' a" by simp
  with Cons.prems have "context' a1 \<noteq> None" by simp
  then have "context' (fst (deliverAll E evs (a1, w1))) = context' a1" by (rule Cons.IH)
  with c ev d show ?case by simp
qed

text \<open>
  C2, as the spec states it: the handle is non-null exactly when the last lifecycle
  event was "started" or "resumed" and no "ended" or "no session" event came after it.
  On the initialized adapter, after "started" (the SDK holding session 7) and then "no
  session", the handle is still session 7; so it is after "started" and then "ending".
\<close>

theorem handle_no_session_counterexample:
  "initialized (fst ready)
   \<and> session (fst (deliverAll env0 [(SESSION_STARTED, Some 7), (NO_SESSION, None)] ready)) = Some 7
   \<and> session (fst (deliverAll env0 [(SESSION_STARTED, Some 7), (SESSION_ENDING, Some 7)] ready)) = Some 7"
  by (simp add: ready_eq deliver_def sessionStateHandler_def setupMessageListener_def this_emit_def
      emit_def record_effects_def env0_def w0_def fresh_def new_CastManager_def cfg0_def)

text \<open>
  C2, amended: for every sequence of lifecycle events delivered to an adapter that holds
  a context (as every adapter does on which \<open>initialize\<close> has resolved), the handle
  afterwards is decided by the last "started", "resumed" or "ended" event of the
  sequence: absent if that event is "ended", the session the SDK
  held at that event if it is "started" or "resumed", and the handle held before the
  sequence if there is no such event. The events "no session", "starting", "start
  failed" and "ending" leave the handle as it is. So, when the SDK holds a session at
  every "started" and "resumed" event, the handle is non-null exactly when the last of
  these three kinds of event was "started" or "resumed", or there was none and a handle
  was held before.
\<close>

theorem handle_follows_decisive_events:
  "context' a \<noteq> None \<Longrightarrow>
     session (fst (deliverAll E evs (a, w))) =
       (if filter decisive evs = [] then session a
        else if fst (last (filter decisive evs)) = SESSION_ENDED then None
        else snd (last (filter decisive evs)))
   \<and> ((\<forall>ev\<in>set evs. (fst ev = SESSION_STARTED \<or> fst ev = SESSION_RESUMED) \<longrightarrow> snd ev \<noteq> None)
        \<longrightarrow> (session (fst (deliverAll E evs (a, w))) \<noteq> None) =
            (if filter decisive evs = [] then session a \<noteq> None
             else fst (last (filter decisive evs)) \<noteq> SESSION_ENDED))"
proof -
  assume ctx: "context' a \<noteq> None"
  have main: "session (fst (deliverAll E evs (a, w))) =
       (if filter decisive evs = [] then session a
        else if fst (last (filter decisive evs)) = SESSION_ENDED then None
        else snd (last (filter decisive evs)))"
  proof (induction evs rule: rev_induct)
    case Nil
    then show ?case by simp
  next
    case (snoc ev evs)
    obtain st cur where ev: "ev = (st, cur)" by (cases ev)
    obtain a1 w1 where d: "deliverAll E evs (a, w) = (a1, w1)" by (cases "deliverAll E evs (a, w)")
    from deliverAll_context [OF ctx, of E evs w] d ctx have c1: "context' a1 \<noteq> None" by simp
    have "session (fst (deliverAll E (evs @ [ev]) (a, w))) = session (fst (deliver E (st, cur) (a1, w1)))"
      by (simp add: deliverAll_append d ev)
    also have "\<dots> = (if st = SESSION_STARTED \<or> st = SESSION_RESUMED then cur
        else if st = SESSION_ENDED then None else session a1)"
      using deliver_session [OF c1, of E st cur w1] by simp
    finally have step: "session (fst (deliverAll E (evs @ [ev]) (a, w))) =
        (if st = SESSION_STARTED \<or> st = SESSION_RESUMED then cur
         else if st = SESSION_ENDED then None else session a1)" .
    have dec: "decisive (st, cur) = (st = SESSION_STARTED \<or> st = SESSION_RESUMED \<or> st = SESSION_ENDED)"
      by (simp add: decisive_def)
    from snoc.IH d have ih: "session a1 =
       (if filter decisive evs = [] then session a
        else if fst (last (filter decisive evs)) = SESSION_ENDED then None
        else snd (last (filter decisive evs)))" by simp
    show ?case
    proof (cases "decisive (st, cur)")
      case True
      with dec step ev show ?thesis by auto
    next
      case False
      with dec step ev ih show ?thesis by auto
    qed
  qed
  have "(session (fst (deliverAll E evs (a, w))) \<noteq> None) =
            (if filter decisive evs = [] then session a \<noteq> None
             else fst (last (filter decisive evs)) \<noteq> SESSION_ENDED)"
    if h: "\<forall>ev\<in>set evs. (fst ev = SESSION_STARTED \<or> fst ev = SESSION_RESUMED) \<longrightarrow> snd ev \<noteq> None"
  proof (cases "filter decisive evs = []")
    case True
    with main show ?thesis by simp
  next
    case False
    then have "last (filter decisive evs) \<in> set (filter decisive evs)" by (rule last_in_set)
    then have m: "last (filter decisive evs) \<in> set evs" "decisive (last (filter decisive evs))" by auto
    show ?thesis
    proof (cases "fst (last (filter decisive evs)) = SESSION_ENDED")
      case True
      with main False show ?thesis by simp
    next
      case ne: False
      with m(2) have "fst (last (filter decisive evs)) = SESSION_STARTED
          \<or> fst (last (filter decisive evs)) = SESSION_RESUMED" by (auto simp: decisive_def)
      with h m(1) have "snd (last (filter decisive evs)) \<noteq> None" by blast
      with main False ne show ?thesis by simp
    qed
  qed
  with main show ?thesis by blast
qed

theorem handle_follows_decisive_events_witness:
  "session (fst (deliverAll env0 four_events ready)) = Some 7
   \<and> session (fst (deliverAll env0 five_events ready)) = None"
proof -
  have c: "context' (fst ready) \<noteq> None" by (simp add: ready_eq)
  have h4: "\<forall>ev\<in>set four_events. (fst ev = SESSION_STARTED \<or> fst ev = SESSION_RESUMED) \<longrightarrow> snd ev \<noteq> None"
    by (simp add: four_events_def)
  have h5: "\<forall>ev\<in>set five_events. (fst ev = SESSION_STARTED \<or> fst ev = SESSION_RESUMED) \<longrightarrow> snd ev \<noteq> None"
    by (simp add: five_events_def)
  have f4: "filter decisive four_events = [(SESSION_STARTED, Some 7)]"
    by (simp add: four_events_def decisive_def)
  have f5: "filter decisive five_events = [(SESSION_STARTED, Some 7), (SESSION_ENDED, None)]"
    by (simp add: five_events_def decisive_def)
  from handle_follows_decisive_events [OF c, where E = env0 and evs = four_events and w = "snd ready"] h4 f4
  have 1: "session (fst (deliverAll env0 four_events ready)) = Some 7" by simp
  from handle_follows_decisive_events [OF c, where E = env0 and evs = five_events and w = "snd ready"] h5 f5
  have 2: "session (fst (deliverAll env0 five_events ready)) = None" by simp
  from 1 2 show ?thesis by simp
qed


subsection \<open>Malformed messages\<close>

lemma messageCallback_appends:
  "\<exists>es. \<forall>w. messageCallback E a ns m w = (None, record_effects es w)"
proof (cases "parseMessage E m")
  case (Inl e)
  then have "\<forall>w. messageCallback E a ns m w
      = (None, record_effects [ConsoleError ''Failed to parse receiver message:''] w)"
    by (simp add: messageCallback_def messageCallback_try_def)
  then show ?thesis by blast
next
  case (Inr v)
  obtain called r where em: "emit (listenerBody E) a MESSAGE_RECEIVED (MessageReceivedEvent ns v) = (called, r)"
    by (cases "emit (listenerBody E) a MESSAGE_RECEIVED (MessageReceivedEvent ns v)")
  let ?pub = "Published MESSAGE_RECEIVED (MessageReceivedEvent ns v)
      # map (\<lambda>l. Invoked MESSAGE_RECEIVED l (MessageReceivedEvent ns v)) called"
  show ?thesis
  proof (cases r)
    case None
    with Inr em have "\<forall>w. messageCallback E a ns m w = (None, record_effects ?pub w)"
      by (simp add: messageCallback_def messageCallback_try_def this_emit_def)
    then show ?thesis by blast
  next
    case (Some e)
    with Inr em have "\<forall>w. messageCallback E a ns m w
        = (None, record_effects (?pub @ [ConsoleError ''Failed to parse receiver message:'']) w)"
      by (simp add: messageCallback_def messageCallback_try_def this_emit_def record_effects_def)
    then show ?thesis by blast
  qed
qed

lemma record_effects_twice: "record_effects es2 (record_effects es1 w) = record_effects (es1 @ es2) w"
  by (simp add: record_effects_def)

lemma receiveAll_appends:
  "\<exists>es. \<forall>w. receiveAll E a ns ms w = (None, record_effects es w)"
proof (induction ms)
  case Nil
  have "\<forall>w. receiveAll E a ns [] w = (None, record_effects [] w)"
    by (simp add: record_effects_def)
  then show ?case by blast
next
  case (Cons m ms)
  from messageCallback_appends [of E a ns m]
  obtain es1 where 1: "\<forall>w. messageCallback E a ns m w = (None, record_effects es1 w)" by blast
  from Cons.IH obtain es2 where 2: "\<forall>w. receiveAll E a ns ms w = (None, record_effects es2 w)" by blast
  from 1 2 have "\<forall>w. receiveAll E a ns (m # ms) w = (None, record_effects (es1 @ es2) w)"
    by (simp add: record_effects_twice)
  then show ?case by blast
qed

lemma receiveAll_append:
  "receiveAll E a ns (xs @ ys) w = receiveAll E a ns ys (snd (receiveAll E a ns xs w))"
proof (induction xs arbitrary: w)
  case Nil
  then show ?case by simp
next
  case (Cons m xs)
  from messageCallback_appends [of E a ns m]
  obtain es1 where "\<forall>w. messageCallback E a ns m w = (None, record_effects es1 w)" by blast
  with Cons.IH show ?case by simp
qed

text \<open>
  C7: a message whose string payload \<open>JSON.parse\<close> rejects publishes nothing and calls
  no listener: the callback returns normally and its only effect is a line on the console.
  The messages before and after it on the channel are handled as if it had not arrived:
  apart from that console line, the effects of the whole sequence are those of the
  sequence without it, and a message that parses is published to the registered
  listeners. Neither the callback nor \<open>setupMessageListener\<close> ever throws.
\<close>

theorem malformed_message_is_dropped:
  "(JSON_parse E s = None
      \<longrightarrow> messageCallback E a ns (JStr s) w
            = (None, record_effects [ConsoleError ''Failed to parse receiver message:''] w))
   \<and> (JSON_parse E s = None
      \<longrightarrow> filter not_console (effects (snd (receiveAll E a ns (before @ JStr s # after) w)))
            = filter not_console (effects (snd (receiveAll E a ns (before @ after) w))))
   \<and> (parseMessage E m = Inr v \<and> listeners a MESSAGE_RECEIVED = Some ls
        \<and> (\<forall>l\<in>set ls. listenerBody E l (MessageReceivedEvent ns v) = None)
      \<longrightarrow> messageCallback E a ns m w
            = (None, record_effects (Published MESSAGE_RECEIVED (MessageReceivedEvent ns v)
                  # map (\<lambda>l. Invoked MESSAGE_RECEIVED l (MessageReceivedEvent ns v)) ls) w))
   \<and> fst (receiveAll E a ns ms w) = None
   \<and> fst (messageCallback E a ns m w) = None
   \<and> fst (setupMessageListener E a w) = None"
proof (intro conjI impI)
  show one: "messageCallback E a ns (JStr s) w
      = (None, record_effects [ConsoleError ''Failed to parse receiver message:''] w)"
    if "JSON_parse E s = None" for w
    using that by (simp add: messageCallback_def messageCallback_try_def parseMessage_def)
  show "filter not_console (effects (snd (receiveAll E a ns (before @ JStr s # after) w)))
      = filter not_console (effects (snd (receiveAll E a ns (before @ after) w)))"
    if bad: "JSON_parse E s = None"
  proof -
    obtain w1 where w1: "snd (receiveAll E a ns before w) = w1" by simp
    from receiveAll_appends [of E a ns after]
    obtain es where es: "\<forall>w. receiveAll E a ns after w = (None, record_effects es w)" by blast
    have "receiveAll E a ns (before @ JStr s # after) w
        = receiveAll E a ns after (record_effects [ConsoleError ''Failed to parse receiver message:''] w1)"
      using one [OF bad] w1 by (simp add: receiveAll_append)
    moreover have "receiveAll E a ns (before @ after) w = receiveAll E a ns after w1"
      using w1 by (simp add: receiveAll_append)
    ultimately show ?thesis using es by (simp add: record_effects_def not_console_def)
  qed
  show "messageCallback E a ns m w
      = (None, record_effects (Published MESSAGE_RECEIVED (MessageReceivedEvent ns v)
            # map (\<lambda>l. Invoked MESSAGE_RECEIVED l (MessageReceivedEvent ns v)) ls) w)"
    if h: "parseMessage E m = Inr v \<and> listeners a MESSAGE_RECEIVED = Some ls
        \<and> (\<forall>l\<in>set ls. listenerBody E l (MessageReceivedEvent ns v) = None)"
  proof -
    from h have "emit (listenerBody E) a MESSAGE_RECEIVED (MessageReceivedEvent ns v) = (ls, None)"
      by (simp add: emit_def forEach_no_throw)
    with h show ?thesis by (simp add: messageCallback_def messageCallback_try_def this_emit_def)
  qed
  show "fst (receiveAll E a ns ms w) = None"
    using receiveAll_appends [of E a ns ms] by auto
  show "fst (messageCallback E a ns m w) = None"
    using messageCallback_appends [of E a ns m] by auto
  show "fst (setupMessageListener E a w) = None"
    by (simp add: setupMessageListener_def Let_def split: option.splits)
qed

theorem malformed_message_is_dropped_witness:
  "messageCallback env0 listening ''ns'' (JStr ''{bad'') w0
      = (None, record_effects [ConsoleError ''Failed to parse receiver message:''] w0)
   \<and> filter not_console (effects (snd (receiveAll env0 listening ''ns'' ([JStr ''null''] @ JStr ''{bad'' # [JNum 3]) w0)))
      = filter not_console (effects (snd (receiveAll env0 listening ''ns'' ([JStr ''null''] @ [JNum 3]) w0)))
   \<and> messageCallback env0 listening ''ns'' (JStr ''null'') w0
      = (None, record_effects [Published MESSAGE_RECEIVED (MessageReceivedEvent ''ns'' JNull),
                               Invoked MESSAGE_RECEIVED 5 (MessageReceivedEvent ''ns'' JNull)] w0)"
proof -
  have bad: "JSON_parse env0 ''{bad'' = None" by (simp add: env0_def only_null_def)
  have good: "parseMessage env0 (JStr ''null'') = Inr JNull \<and> listeners listening MESSAGE_RECEIVED = Some [5]
      \<and> (\<forall>l\<in>set [5 :: nat]. listenerBody env0 l (MessageReceivedEvent ''ns'' JNull) = None)"
    by (simp add: parseMessage_def env0_def only_null_def listening_def on_listeners set_add_def
        ready_eq fresh_def new_CastManager_def)
  note T = malformed_message_is_dropped [where E = env0 and s = "''{bad''" and a = listening
      and ns = "''ns''" and w = w0 and before = "[JStr ''null'']" and after = "[JNum 3]"
      and m = "JStr ''null''" and v = JNull and ls = "[5]"]
  from T bad have 1: "messageCallback env0 listening ''ns'' (JStr ''{bad'') w0
      = (None, record_effects [ConsoleError ''Failed to parse receiver message:''] w0)" by blast
  from T bad have 2: "filter not_console (effects (snd (receiveAll env0 listening ''ns'' ([JStr ''null''] @ JStr ''{bad'' # [JNum 3]) w0)))
      = filter not_console (effects (snd (receiveAll env0 listening ''ns'' ([JStr ''null''] @ [JNum 3]) w0)))"
    by blast
  from T good have "messageCallback env0 listening ''ns'' (JStr ''null'') w0
      = (None, record_effects (Published MESSAGE_RECEIVED (MessageReceivedEvent ''ns'' JNull)
          # map (\<lambda>l. Invoked MESSAGE_RECEIVED l (MessageReceivedEvent ''ns'' JNull)) [5]) w0)"
    by blast
  then have 3: "messageCallback env0 listening ''ns'' (JStr ''null'') w0
      = (None, record_effects [Published MESSAGE_RECEIVED (MessageReceivedEvent ''ns'' JNull),
                               Invoked MESSAGE_RECEIVED 5 (MessageReceivedEvent ''ns'' JNull)] w0)"
    by simp
  from 1 2 3 show ?thesis by blast
qed



subsection \<open>The singleton\<close>

lemma wf_program_self: "wf_program p \<Longrightarrow> r < length (objects p) \<Longrightarrow> self (objects p ! r) = r"
proof -
  assume wf: "wf_program p" and r: "r < length (objects p)"
  then have "map self (objects p) ! r = [0..<length (objects p)] ! r" by (simp add: wf_program_def)
  with r show ?thesis by simp
qed

lemma wf_program0: "wf_program program0"
  by (simp add: wf_program_def program0_def)

lemma wf_construct: "wf_program p \<Longrightarrow> wf_program (snd (construct c p))"
  by (simp add: wf_program_def construct_def Let_def new_CastManager_def)

lemma wf_getInstance: "wf_program p \<Longrightarrow> wf_program (snd (getInstance cfg p))"
proof -
  assume wf: "wf_program p"
  show ?thesis
  proof (cases "instance' p")
    case (Some r)
    with wf show ?thesis by (simp add: getInstance_def)
  next
    case None
    show ?thesis
    proof (cases cfg)
      case n: None
      with None wf show ?thesis by (simp add: getInstance_def)
    next
      case (Some c)
      from wf_construct [OF wf, of c] have "wf_program (snd (construct c p)\<lparr>instance' := Some (fst (construct c p))\<rparr>)"
        by (simp add: wf_program_def)
      with None Some show ?thesis by (auto simp: getInstance_def split: prod.splits)
    qed
  qed
qed

lemma wf_destroyAt: "wf_program p \<Longrightarrow> wf_program (destroyAt r p)"
proof (cases "r < length (objects p)")
  case False
  assume "wf_program p"
  with False show ?thesis by (simp add: destroyAt_def)
next
  case True
  assume wf: "wf_program p"
  from wf_program_self [OF wf True] have s: "self (objects p ! r) = r" .
  from True have "[0..<length (objects p)][r := r] = [0..<length (objects p)]"
    by (metis add_0 list_update_id nth_upt)
  with wf True s show ?thesis
    by (simp add: wf_program_def destroyAt_def destroy_def removeAllListeners_def map_update)
qed

lemma wf_program_step: "wf_program p \<Longrightarrow> wf_program (program_step c p)"
  by (cases c) (simp_all add: wf_getInstance wf_construct wf_destroyAt)

lemma wf_program_run: "wf_program p \<Longrightarrow> wf_program (fold program_step calls p)"
  by (induction calls arbitrary: p) (simp_all add: wf_program_step)

text \<open>
  C10: \<open>getInstance\<close> throws when there is no instance and no config; with a config and
  no instance it constructs a new adapter from the config and stores it, and later calls
  return that adapter; when an instance exists it returns it and leaves everything as it
  is, whatever the config argument; \<open>destroy()\<close> on an object clears the static field
  when that object is the stored instance, and leaves it as it is otherwise.
  (\<open>wf_program\<close> says that each object carries its own reference as its identity; it
  holds after every sequence of calls from the program with no object.)
\<close>

theorem getInstance_semantics:
  "(instance' p = None \<longrightarrow> getInstance None p = (Inl ConfigRequiredError, p))
   \<and> (instance' p = None \<longrightarrow>
        getInstance (Some c) p =
          (Inr (length (objects p)),
           p\<lparr>objects := objects p @ [new_CastManager c (length (objects p))],
             autoInitStarted := (if autoInitialize_in c = Some True
                                 then autoInitStarted p @ [length (objects p)] else autoInitStarted p),
             instance' := Some (length (objects p))\<rparr>))
   \<and> (instance' p = None \<longrightarrow>
        fst (getInstance cfg' (snd (getInstance (Some c) p))) = fst (getInstance (Some c) p))
   \<and> (instance' p = Some r \<longrightarrow> getInstance cfg p = (Inr r, p))
   \<and> (wf_program p \<and> r < length (objects p) \<longrightarrow>
        instance' (destroyAt r p) = (if instance' p = Some r then None else instance' p))
   \<and> wf_program (fold program_step calls program0)"
proof (intro conjI impI)
  show "wf_program (fold program_step calls program0)"
    by (rule wf_program_run) (rule wf_program0)
  show "getInstance None p = (Inl ConfigRequiredError, p)" if "instance' p = None"
    using that by (simp add: getInstance_def)
  show "getInstance (Some c) p =
          (Inr (length (objects p)),
           p\<lparr>objects := objects p @ [new_CastManager c (length (objects p))],
             autoInitStarted := (if autoInitialize_in c = Some True
                                 then autoInitStarted p @ [length (objects p)] else autoInitStarted p),
             instance' := Some (length (objects p))\<rparr>)" if "instance' p = None"
    using that by (auto simp: getInstance_def construct_def Let_def new_CastManager_def split: option.splits)
  show "fst (getInstance cfg' (snd (getInstance (Some c) p))) = fst (getInstance (Some c) p)"
    if "instance' p = None"
    using that by (simp add: getInstance_def construct_def Let_def split: prod.splits)
  show "getInstance cfg p = (Inr r, p)" if "instance' p = Some r"
    using that by (simp add: getInstance_def)
  show "instance' (destroyAt r p) = (if instance' p = Some r then None else instance' p)"
    if "wf_program p \<and> r < length (objects p)"
    using that wf_program_self [of p r] by (simp add: destroyAt_def destroy_def)
qed

theorem getInstance_semantics_witness:
  "getInstance None program0 = (Inl ConfigRequiredError, program0)
   \<and> getInstance (Some cfg0) program0 =
        (Inr 0, program0\<lparr>objects := [new_CastManager cfg0 0], autoInitStarted := [], instance' := Some 0\<rparr>)
   \<and> fst (getInstance None (snd (getInstance (Some cfg0) program0))) = Inr 0
   \<and> getInstance None two_objects = (Inr 0, two_objects)
   \<and> instance' (destroyAt 1 two_objects) = Some 0
   \<and> instance' (destroyAt 0 two_objects) = None
   \<and> wf_program (fold program_step [CallGetInstance (Some cfg0), CallNew cfg0, CallDestroy 0] program0)"
proof -
  have i0: "instance' program0 = None" "objects program0 = []" "autoInitStarted program0 = []"
    by (simp_all add: program0_def)
  have c0: "autoInitialize_in cfg0 \<noteq> Some True" by (simp add: cfg0_def)
  note T0 = getInstance_semantics [where p = program0 and c = cfg0 and cfg' = None and r = 0
      and cfg = None and calls = "[CallGetInstance (Some cfg0), CallNew cfg0, CallDestroy 0]"]
  note T1 = getInstance_semantics [where p = two_objects and c = cfg0 and cfg' = None and r = 1
      and cfg = None and calls = "[]"]
  note T2 = getInstance_semantics [where p = two_objects and c = cfg0 and cfg' = None and r = 0
      and cfg = None and calls = "[]"]
  from T0 have 7: "wf_program (fold program_step [CallGetInstance (Some cfg0), CallNew cfg0, CallDestroy 0] program0)"
    by blast
  from T0 i0(1) have 1: "getInstance None program0 = (Inl ConfigRequiredError, program0)"
    by blast
  from T0 i0(1) have "getInstance (Some cfg0) program0 =
          (Inr (length (objects program0)),
           program0\<lparr>objects := objects program0 @ [new_CastManager cfg0 (length (objects program0))],
             autoInitStarted := (if autoInitialize_in cfg0 = Some True
                                 then autoInitStarted program0 @ [length (objects program0)]
                                 else autoInitStarted program0),
             instance' := Some (length (objects program0))\<rparr>)"
    by blast
  with i0 c0 have g: "getInstance (Some cfg0) program0 =
        (Inr 0, program0\<lparr>objects := [new_CastManager cfg0 0], autoInitStarted := [], instance' := Some 0\<rparr>)"
    by simp
  from T0 i0(1) have "fst (getInstance None (snd (getInstance (Some cfg0) program0)))
      = fst (getInstance (Some cfg0) program0)" by blast
  with g have 3: "fst (getInstance None (snd (getInstance (Some cfg0) program0))) = Inr 0"
    by simp
  have t: "instance' two_objects = Some 0" "length (objects two_objects) = 2"
    by (simp_all add: two_objects_def g construct_def Let_def)
  have wf: "wf_program two_objects"
    unfolding two_objects_def by (intro wf_construct wf_getInstance wf_program0)
  from T2 t(1) have 4: "getInstance None two_objects = (Inr 0, two_objects)" by blast
  from t(2) wf have h1: "wf_program two_objects \<and> 1 < length (objects two_objects)" by simp
  from t(2) wf have h0: "wf_program two_objects \<and> 0 < length (objects two_objects)" by simp
  from T1 h1 have "instance' (destroyAt 1 two_objects)
      = (if instance' two_objects = Some 1 then None else instance' two_objects)" by blast
  with t(1) have 5: "instance' (destroyAt 1 two_objects) = Some 0" by simp
  from T2 h0 have "instance' (destroyAt 0 two_objects)
      = (if instance' two_objects = Some 0 then None else instance' two_objects)" by blast
  with t(1) have 6: "instance' (destroyAt 0 two_objects) = None" by simp
  from 1 g 3 4 5 6 7 show ?thesis by blast
qed


end
